theory Spec2Isabelle
  imports Main "HOL-Library.Sublist"
begin

section \<open>Strings\<close>

text \<open>
  A JavaScript string is modelled as a \<open>string\<close> (a list of \<open>char\<close>); a \<open>char\<close> stands for a
  UTF-16 code unit below 256. The character classes below are the ones the regular
  expressions and \<open>String.prototype.trim\<close> of the source use, restricted to that range.
\<close>

definition isSpace :: "char \<Rightarrow> bool" where
  \<comment> \<open>\<open>\s\<close> and the characters \<open>trim\<close> strips: tab, LF, VT, FF, CR, space, no-break space.\<close>
  "isSpace c = (c \<in> set [CHR 0x09, CHR 0x0A, CHR 0x0B, CHR 0x0C, CHR 0x0D, CHR '' '', CHR 0xA0])"

definition isLineTerminator :: "char \<Rightarrow> bool" where
  \<comment> \<open>the characters \<open>.\<close> does not match: LF and CR.\<close>
  "isLineTerminator c = (c = CHR 0x0A \<or> c = CHR 0x0D)"

definition isDigit :: "char \<Rightarrow> bool" where
  \<comment> \<open>\<open>\d\<close>\<close>
  "isDigit c = (c \<in> set ''0123456789'')"

definition isUpper :: "char \<Rightarrow> bool" where
  \<comment> \<open>\<open>[A-Z]\<close>\<close>
  "isUpper c = (c \<in> set ''ABCDEFGHIJKLMNOPQRSTUVWXYZ'')"

definition isLower :: "char \<Rightarrow> bool" where
  "isLower c = (c \<in> set ''abcdefghijklmnopqrstuvwxyz'')"

definition isWord :: "char \<Rightarrow> bool" where
  \<comment> \<open>\<open>\w\<close> is \<open>[A-Za-z0-9_]\<close>: the underscore is a word character.\<close>
  "isWord c = (isUpper c \<or> isLower c \<or> isDigit c \<or> c = CHR ''_'')"

definition toUpperCase :: "char \<Rightarrow> char" where
  "toUpperCase c =
     (case map_of (zip ''abcdefghijklmnopqrstuvwxyz'' ''ABCDEFGHIJKLMNOPQRSTUVWXYZ'') c of
        Some u \<Rightarrow> u | None \<Rightarrow> c)"

definition toLowerCase :: "char \<Rightarrow> char" where
  "toLowerCase c =
     (case map_of (zip ''ABCDEFGHIJKLMNOPQRSTUVWXYZ'' ''abcdefghijklmnopqrstuvwxyz'') c of
        Some l \<Rightarrow> l | None \<Rightarrow> c)"

definition trim :: "string \<Rightarrow> string" where
  "trim s = rev (dropWhile isSpace (rev (dropWhile isSpace s)))"

definition startsWith :: "string \<Rightarrow> string \<Rightarrow> bool" where
  \<comment> \<open>\<open>startsWith p s\<close> is \<open>s.startsWith(p)\<close>\<close>
  "startsWith p s = (take (length p) s = p)"

definition endsWith :: "string \<Rightarrow> string \<Rightarrow> bool" where
  "endsWith p s = (length p \<le> length s \<and> drop (length s - length p) s = p)"

fun includes_str :: "string \<Rightarrow> string \<Rightarrow> bool" where
  \<comment> \<open>\<open>includes_str p s\<close> is \<open>s.includes(p)\<close>\<close>
  "includes_str p [] = (p = [])"
| "includes_str p (c # cs) = (startsWith p (c # cs) \<or> includes_str p cs)"

fun split :: "char \<Rightarrow> string \<Rightarrow> string list" where
  \<comment> \<open>\<open>s.split(sep)\<close> for a one-character separator; \<open>''''.split(sep)\<close> is \<open>['''']\<close>.\<close>
  "split sep [] = [[]]"
| "split sep (c # cs) =
     (if c = sep then [] # split sep cs
      else (case split sep cs of [] \<Rightarrow> [[c]] | l # ls \<Rightarrow> (c # l) # ls))"

fun join :: "string \<Rightarrow> string list \<Rightarrow> string" where
  \<comment> \<open>\<open>join sep xs\<close> is \<open>xs.join(sep)\<close>\<close>
  "join sep [] = []"
| "join sep [x] = x"
| "join sep (x # y # ys) = x @ sep @ join sep (y # ys)"

definition digit_char :: "nat \<Rightarrow> char" where
  "digit_char d = ''0123456789'' ! d"

fun nat_to_string :: "nat \<Rightarrow> string" where
  \<comment> \<open>\<open>String(n)\<close> for a non-negative integer: decimal digits, no leading zero.\<close>
  "nat_to_string n =
     (if n < 10 then [digit_char n] else nat_to_string (n div 10) @ [digit_char (n mod 10)])"

declare nat_to_string.simps [simp del]

definition digit_val :: "char \<Rightarrow> nat" where
  "digit_val c = (case map_of (zip ''0123456789'' [0, 1, 2, 3, 4, 5, 6, 7, 8, 9]) c of
                    Some d \<Rightarrow> d | None \<Rightarrow> 0)"

definition digits_val :: "string \<Rightarrow> nat" where
  \<comment> \<open>the value of a string of decimal digits\<close>
  "digits_val ds = foldl (\<lambda>a c. 10 * a + digit_val c) 0 ds"

section \<open>The data model\<close>

text \<open>
  The structured value the encoder reads and the decoder builds. \<open>JUndefined\<close> is
  JavaScript's \<open>undefined\<close>, \<open>JDate\<close> a valid \<open>Date\<close> object, carried as its \<open>toISOString()\<close> text,
  and \<open>JOther\<close> a value that is neither an object nor a string, number, boolean, \<open>null\<close> or
  \<open>undefined\<close> (a function, a symbol, a bigint), carried as its \<open>String(v)\<close> text; the decoder
  builds none of the last two.
  An object is the list of its own enumerable entries in \<open>Object.entries\<close> order; an
  object the decoder builds lists its keys in the order they were first set. Two things
  JavaScript does with particular keys are not modelled: integer-like keys are enumerated
  before the others, and an assignment to the key \<open>__proto__\<close> goes to the setter of the
  prototype and adds no key.

  A number is a finite decimal: \<open>JNum m e\<close> is the number \<open>m / 10 ^ e\<close>, with \<open>e = 0\<close> or
  \<open>m\<close> not divisible by ten, so that equal numbers are equal terms. \<open>String\<close>, \<open>parseInt\<close> and
  \<open>parseFloat\<close> of the source are exact on this representation for the decimals of at most
  15 significant digits that JavaScript prints without an exponent; \<open>NaN\<close>, the infinities
  and the sign of zero are not represented.
\<close>

datatype json =
    JNull
  | JUndefined
  | JBool bool
  | JNum int nat
  | JStr string
  | JDate string
  | JArr "json list"
  | JObj "(string \<times> json) list"
  | JOther string

fun normalize_decimal :: "int \<Rightarrow> nat \<Rightarrow> int \<times> nat" where
  "normalize_decimal m 0 = (m, 0)"
| "normalize_decimal m (Suc e) =
     (if m mod 10 = 0 then normalize_decimal (m div 10) e else (m, Suc e))"

definition mk_num :: "int \<Rightarrow> nat \<Rightarrow> json" where
  "mk_num m e = (case normalize_decimal m e of (m', e') \<Rightarrow> JNum m' e')"

definition pad_zeros :: "nat \<Rightarrow> string \<Rightarrow> string" where
  "pad_zeros w s = replicate (w - length s) (CHR ''0'') @ s"

definition number_to_string :: "int \<Rightarrow> nat \<Rightarrow> string" where
  \<comment> \<open>\<open>String(x)\<close> for the number \<open>m / 10 ^ e\<close>\<close>
  "number_to_string m e =
     (let a = nat \<bar>m\<bar>;
          sign = (if m < 0 then ''-'' else '''');
          whole = nat_to_string (a div 10 ^ e)
      in if e = 0 then sign @ whole
         else sign @ whole @ ''.'' @ pad_zeros e (nat_to_string (a mod 10 ^ e)))"

fun set_prop :: "(string \<times> json) list \<Rightarrow> string \<Rightarrow> json \<Rightarrow> (string \<times> json) list" where
  \<comment> \<open>\<open>obj[key] = value\<close>: an existing key keeps its place, a new key goes last.\<close>
  "set_prop [] k v = [(k, v)]"
| "set_prop ((k', v') # es) k v = (if k' = k then (k, v) # es else (k', v') # set_prop es k v)"

definition object_assign :: "(string \<times> json) list \<Rightarrow> (string \<times> json) list \<Rightarrow> (string \<times> json) list" where
  \<comment> \<open>\<open>Object.assign(obj, src)\<close>\<close>
  "object_assign obj src = foldl (\<lambda>acc (k, v). set_prop acc k v) obj src"

section \<open>Shared helpers of the decoder\<close>

subsection \<open>\<open>toCamelCase\<close>\<close>

text \<open>
  \<open>str.replace(/(?:^\w|[A-Z]|\b\w)/g, f)\<close>: every match is one character. The character
  at index \<open>i\<close> matches when it is an upper-case letter, or a word character that stands at
  index 0 or after a non-word character (\<open>\b\<close>). The callback lower-cases the match at
  index 0 and upper-cases every other match.
\<close>

fun camel_replace :: "nat \<Rightarrow> char option \<Rightarrow> string \<Rightarrow> string" where
  "camel_replace i prev [] = []"
| "camel_replace i prev (c # cs) =
     (let boundary = (case prev of None \<Rightarrow> True | Some p \<Rightarrow> \<not> isWord p);
          matches = ((i = 0 \<and> isWord c) \<or> isUpper c \<or> (boundary \<and> isWord c))
      in (if matches then (if i = 0 then toLowerCase c else toUpperCase c) else c)
           # camel_replace (i + 1) (Some c) cs)"

definition toCamelCase :: "string \<Rightarrow> string" where
  "toCamelCase str =
     filter (\<lambda>c. c \<noteq> CHR ''_'' \<and> c \<noteq> CHR ''-'')
       (filter (\<lambda>c. \<not> isSpace c) (camel_replace 0 None str))"

subsection \<open>\<open>parseCellValue\<close>\<close>

definition is_integer_text :: "string \<Rightarrow> bool" where
  \<comment> \<open>\<open>/^-?\d+$/\<close>\<close>
  "is_integer_text s =
     (let ds = (if startsWith ''-'' s then drop 1 s else s) in ds \<noteq> [] \<and> list_all isDigit ds)"

definition is_decimal_text :: "string \<Rightarrow> bool" where
  \<comment> \<open>\<open>/^-?\d*\.\d+$/\<close>\<close>
  "is_decimal_text s =
     (let r = (if startsWith ''-'' s then drop 1 s else s);
          frac = dropWhile isDigit r
      in startsWith ''.'' frac \<and> drop 1 frac \<noteq> [] \<and> list_all isDigit (drop 1 frac))"

definition parseInt :: "string \<Rightarrow> json" where
  \<comment> \<open>\<open>parseInt(s, 10)\<close> on a text that matches \<open>/^-?\d+$/\<close>\<close>
  "parseInt s =
     (if startsWith ''-'' s then JNum (- int (digits_val (drop 1 s))) 0
      else JNum (int (digits_val s)) 0)"

definition parseFloat :: "string \<Rightarrow> json" where
  \<comment> \<open>\<open>parseFloat(s)\<close> on a text that matches \<open>/^-?\d*\.\d+$/\<close>\<close>
  "parseFloat s =
     (let neg = startsWith ''-'' s;
          r = (if neg then drop 1 s else s);
          whole = takeWhile isDigit r;
          frac = drop 1 (dropWhile isDigit r);
          m = int (digits_val (whole @ frac))
      in mk_num (if neg then - m else m) (length frac))"

definition is_array_marker :: "string \<Rightarrow> bool" where
  \<comment> \<open>\<open>/^array\[\d+\]$/\<close>\<close>
  "is_array_marker s =
     (startsWith ''array['' s \<and> endsWith '']'' s \<and>
      (let ds = take (length s - 7) (drop 6 s) in ds \<noteq> [] \<and> list_all isDigit ds))"

definition strip_emphasis :: "string \<Rightarrow> string" where
  \<comment> \<open>\<open>s.replace(/^_|_$/g, '')\<close>: one leading underscore, then one trailing underscore of
      what is left.\<close>
  "strip_emphasis s =
     (let s1 = (if startsWith ''_'' s then drop 1 s else s)
      in if endsWith ''_'' s1 then butlast s1 else s1)"

definition parseCellValue :: "string \<Rightarrow> json" where
  "parseCellValue cell =
     (let trimmed = trim cell in
      if trimmed = ''_null_'' \<or> trimmed = ''null'' \<or> trimmed = '''' then JNull
      else if trimmed = ''true'' then JBool True
      else if trimmed = ''false'' then JBool False
      else if is_integer_text trimmed then parseInt trimmed
      else if is_decimal_text trimmed then parseFloat trimmed
      else if startsWith ''_'' trimmed \<and> endsWith ''_'' trimmed
              \<and> butlast (drop 1 trimmed) = ''object'' then JObj []
      else if startsWith ''_'' trimmed \<and> endsWith ''_'' trimmed
              \<and> butlast (drop 1 trimmed) = ''empty array'' then JArr []
      else if startsWith ''_'' trimmed \<and> endsWith ''_'' trimmed
              \<and> butlast (drop 1 trimmed) = ''empty object'' then JObj []
      else if startsWith ''_'' trimmed \<and> endsWith ''_'' trimmed
              \<and> is_array_marker (butlast (drop 1 trimmed)) then JArr []
      else JStr (strip_emphasis trimmed))"

section \<open>The decoder\<close>

subsection \<open>The key-value pattern\<close>

text \<open>
  \<open>content.match(/\*\*(.+?)\*\*:\s*(.+)/)\<close>, as the backtracking matcher runs it: the
  leftmost \<open>**\<close>, after it the shortest key of at least one character (no line terminator)
  that is followed by \<open>**:\<close> and by a match of \<open>\s*(.+)\<close>; for \<open>\s*\<close> the longest run of white
  space after which \<open>(.+)\<close> still finds a character. The result is the pair of the two
  groups.
\<close>

fun kv_value :: "string \<Rightarrow> string option" where
  \<comment> \<open>\<open>\s*(.+)\<close> at the start of the text: the second group\<close>
  "kv_value [] = None"
| "kv_value (c # cs) =
     (if isSpace c then
        (case kv_value cs of
           Some v \<Rightarrow> Some v
         | None \<Rightarrow> if isLineTerminator c then None
                   else Some (takeWhile (\<lambda>x. \<not> isLineTerminator x) (c # cs)))
      else Some (takeWhile (\<lambda>x. \<not> isLineTerminator x) (c # cs)))"

fun kv_key :: "string \<Rightarrow> string \<Rightarrow> (string \<times> string) option" where
  \<comment> \<open>\<open>kv_key key rest\<close>: \<open>key\<close> is the group \<open>(.+?)\<close> read so far, \<open>rest\<close> the text after it\<close>
  "kv_key key [] = None"
| "kv_key key (c # cs) =
     (case (if startsWith ''**:'' (c # cs) then kv_value (drop 3 (c # cs)) else None) of
        Some v \<Rightarrow> Some (key, v)
      | None \<Rightarrow> if isLineTerminator c then None else kv_key (key @ [c]) cs)"

fun kv_match :: "string \<Rightarrow> (string \<times> string) option" where
  "kv_match [] = None"
| "kv_match (c # cs) =
     (case (if startsWith ''**'' (c # cs) then
              (case drop 2 (c # cs) of
                 [] \<Rightarrow> None
               | k # r \<Rightarrow> if isLineTerminator k then None else kv_key [k] r)
            else None) of
        Some m \<Rightarrow> Some m
      | None \<Rightarrow> kv_match cs)"

subsection \<open>Numbered lines\<close>

definition is_numbered :: "string \<Rightarrow> bool" where
  \<comment> \<open>\<open>/^\d+\.\s/.test(line)\<close>\<close>
  "is_numbered line =
     (takeWhile isDigit line \<noteq> [] \<and>
      (case dropWhile isDigit line of
         d # s # _ \<Rightarrow> d = CHR ''.'' \<and> isSpace s
       | _ \<Rightarrow> False))"

definition strip_number :: "string \<Rightarrow> string" where
  \<comment> \<open>\<open>line.replace(/^\d+\.\s+/, '')\<close>\<close>
  "strip_number line =
     (if is_numbered line then dropWhile isSpace (drop 1 (dropWhile isDigit line)) else line)"

subsection \<open>Tables\<close>

definition is_pipe_line :: "string \<Rightarrow> bool" where
  \<comment> \<open>\<open>line.startsWith('|') && line.endsWith('|')\<close>\<close>
  "is_pipe_line line = (startsWith ''|'' line \<and> endsWith ''|'' line)"

definition is_separator :: "string \<Rightarrow> bool" where
  \<comment> \<open>\<open>/^\|\s*-+\s*\|/.test(row)\<close>\<close>
  "is_separator row =
     (case row of
        [] \<Rightarrow> False
      | c # r \<Rightarrow>
          c = CHR ''|'' \<and>
          (let dashes = dropWhile isSpace r;
               after = dropWhile isSpace (dropWhile (\<lambda>x. x = CHR ''-'') dashes)
           in startsWith ''-'' dashes \<and> startsWith ''|'' after))"

fun indexOf :: "string list \<Rightarrow> string \<Rightarrow> nat option" where
  \<comment> \<open>\<open>lines.indexOf(x)\<close>, with \<open>None\<close> for -1\<close>
  "indexOf [] x = None"
| "indexOf (l # ls) x = (if l = x then Some 0 else map_option Suc (indexOf ls x))"

definition isTable :: "string list \<Rightarrow> bool" where
  "isTable lines =
     (if length lines < 2 then False
      else (case find is_pipe_line lines of
              None \<Rightarrow> False
            | Some headerRow \<Rightarrow>
                if headerRow = [] then False
                else (case indexOf lines headerRow of
                        None \<Rightarrow> False
                      | Some headerIndex \<Rightarrow>
                          if headerIndex \<ge> length lines - 1 then False
                          else (let separatorRow = lines ! (headerIndex + 1)
                                in if separatorRow = [] then False
                                   else is_separator separatorRow))))"

fun table_bounds :: "string list \<Rightarrow> nat \<Rightarrow> nat option \<Rightarrow> nat \<Rightarrow> nat option \<times> nat" where
  \<comment> \<open>the loop that finds \<open>startIndex\<close> (\<open>None\<close> for -1) and \<open>endIndex\<close>; the first argument is
      the lines from index \<open>i\<close> on\<close>
  "table_bounds [] i startIndex endIndex = (startIndex, endIndex)"
| "table_bounds (l # ls) i startIndex endIndex =
     (if is_pipe_line l then
        table_bounds ls (i + 1) (if startIndex = None then Some i else startIndex) endIndex
      else if startIndex \<noteq> None then (startIndex, i)
      else table_bounds ls (i + 1) startIndex endIndex)"

definition table_headers :: "bool \<Rightarrow> string \<Rightarrow> string list" where
  "table_headers camelCaseKeys headerLine =
     map (\<lambda>h. if camelCaseKeys then toCamelCase h else h)
       (filter (\<lambda>h. length h > 0) (map trim (split (CHR ''|'') headerLine)))"

definition row_cells :: "nat \<Rightarrow> string \<Rightarrow> string list" where
  \<comment> \<open>\<open>row.split('|').map(c => c.trim()).filter((_, idx) => idx > 0 && idx <= n)\<close>\<close>
  "row_cells n row =
     map snd (filter (\<lambda>(idx, c). idx > 0 \<and> idx \<le> n)
                (enumerate 0 (map trim (split (CHR ''|'') row))))"

definition row_object :: "string list \<Rightarrow> string list \<Rightarrow> (string \<times> json) list" where
  \<comment> \<open>the \<open>headers.forEach\<close> that fills \<open>rowObj\<close>\<close>
  "row_object headers cells =
     foldl (\<lambda>rowObj (idx, header). set_prop rowObj header (parseCellValue (cells ! idx)))
       [] (enumerate 0 headers)"

definition table_row ::
  "string list \<Rightarrow> string list \<Rightarrow> nat \<Rightarrow> (string \<times> json) list list \<times> string list \<Rightarrow> nat
     \<Rightarrow> (string \<times> json) list list \<times> string list" where
  \<comment> \<open>one turn of the row loop, on the pair of \<open>result\<close> and \<open>errors\<close>\<close>
  "table_row lines headers startIndex st i =
     (case st of (result, errors) \<Rightarrow>
        (let row = lines ! i in
         if \<not> startsWith ''|'' row \<or> \<not> endsWith ''|'' row then (result, errors)
         else (let cells = row_cells (length headers) row in
               if length cells \<noteq> length headers then
                 (result, errors @ [''Row '' @ nat_to_string (i - startIndex - 1)
                                      @ '': column count mismatch''])
               else (result @ [row_object headers cells], errors))))"

definition parseTable ::
  "string list \<Rightarrow> string list \<Rightarrow> bool \<Rightarrow> (string \<times> json) list list \<times> string list" where
  \<comment> \<open>takes \<open>errors\<close> and returns it with what the call pushed\<close>
  "parseTable lines errors camelCaseKeys =
     (case table_bounds lines 0 None (length lines) of
        (None, endIndex) \<Rightarrow> ([], errors @ [''Table header not found''])
      | (Some startIndex, endIndex) \<Rightarrow>
          (let headers = table_headers camelCaseKeys (lines ! startIndex)
           in foldl (table_row lines headers startIndex) ([], errors)
                [startIndex + 2 ..< endIndex]))"

subsection \<open>Structured content\<close>

text \<open>
  \<open>parseContent\<close> calls itself once for every key-value bullet of a run, so its depth on
  the call stack grows with the input, and a JavaScript engine answers an exhausted stack
  with a \<open>RangeError\<close>. The first argument of the model is the number of activations of
  \<open>parseContent\<close> the stack still has room for; the limit itself belongs to the engine.
  The source hands \<open>errors\<close> on to every recursive call and never writes to it inside
  \<open>parseContent\<close>, so the model leaves that argument out.
\<close>

datatype js_error = RangeError string

fun message :: "js_error \<Rightarrow> string" where
  "message (RangeError m) = m"

definition stack_exhausted :: js_error where
  "stack_exhausted = RangeError ''Maximum call stack size exceeded''"

definition list_items :: "(string \<Rightarrow> bool) \<Rightarrow> (string \<Rightarrow> string) \<Rightarrow> string list \<Rightarrow> nat \<Rightarrow> json list \<times> nat" where
  \<comment> \<open>the \<open>while\<close> loop of a list: the items of the lines from \<open>nextIndex\<close> on that pass the
      test, and the index after them\<close>
  "list_items test content lines nextIndex =
     (let run = takeWhile test (drop nextIndex lines)
      in (map (\<lambda>l. parseCellValue (trim (content l))) run, nextIndex + length run))"

definition bullet_list :: "string list \<Rightarrow> nat \<Rightarrow> string \<Rightarrow> json \<times> nat" where
  \<comment> \<open>a bullet that is no key-value pair: the run of bullets it starts\<close>
  "bullet_list lines startIndex content =
     (case list_items (startsWith ''- '') (drop 2) lines (startIndex + 1) of
        (rest, nextIndex) \<Rightarrow>
          (let items = parseCellValue content # rest
           in (if length items = 1 then items ! 0 else JArr items, nextIndex)))"

definition numbered_list :: "string list \<Rightarrow> nat \<Rightarrow> string \<Rightarrow> json \<times> nat" where
  "numbered_list lines startIndex line =
     (case list_items is_numbered strip_number lines (startIndex + 1) of
        (rest, nextIndex) \<Rightarrow> (JArr (parseCellValue (trim (strip_number line)) # rest), nextIndex))"

definition nested_value :: "js_error + json \<times> nat \<Rightarrow> json \<Rightarrow> nat \<Rightarrow> js_error + json \<times> nat" where
  \<comment> \<open>what the recursive call on the next line makes of \<open>value\<close> and \<open>nextIndex\<close>\<close>
  "nested_value r value nextIndex =
     (case r of
        Inl e \<Rightarrow> Inl e
      | Inr (nested, nestedNext) \<Rightarrow>
          if nested \<noteq> JNull then Inr (nested, nestedNext) else Inr (value, nextIndex))"

definition merge_more :: "js_error + json \<times> nat \<Rightarrow> (string \<times> json) list \<Rightarrow> nat \<Rightarrow> js_error + json \<times> nat" where
  \<comment> \<open>what the recursive call on the following bullet adds to \<open>obj\<close>; a \<open>Date\<close> is an object
      without own properties\<close>
  "merge_more r obj nextIndex =
     (case r of
        Inl e \<Rightarrow> Inl e
      | Inr (more, moreNext) \<Rightarrow>
          (case more of
             JObj es \<Rightarrow> Inr (JObj (object_assign obj es), moreNext)
           | JDate d \<Rightarrow> Inr (JObj obj, moreNext)
           | _ \<Rightarrow> Inr (JObj obj, nextIndex)))"

definition kv_bullet ::
  "(nat \<Rightarrow> js_error + json \<times> nat) \<Rightarrow> string list \<Rightarrow> nat \<Rightarrow> string \<Rightarrow> json \<Rightarrow> js_error + json \<times> nat" where
  \<comment> \<open>a key-value bullet at \<open>startIndex\<close>, after the key and the inline value are read;
      \<open>recur i\<close> is the recursive call of \<open>parseContent\<close> at line \<open>i\<close>\<close>
  "kv_bullet recur lines startIndex key value =
     (let nextIndex = startIndex + 1 in
      case (if nextIndex < length lines \<and> startsWith ''  '' (lines ! nextIndex)
            then nested_value (recur nextIndex) value nextIndex
            else Inr (value, nextIndex)) of
        Inl e \<Rightarrow> Inl e
      | Inr (value', nextIndex') \<Rightarrow>
          (let obj = [(key, value')] in
           if nextIndex' < length lines \<and> startsWith ''- '' (lines ! nextIndex')
           then merge_more (recur nextIndex') obj nextIndex'
           else Inr (JObj obj, nextIndex')))"

fun parseContent :: "nat \<Rightarrow> string list \<Rightarrow> nat \<Rightarrow> bool \<Rightarrow> bool \<Rightarrow> js_error + json \<times> nat" where
  "parseContent 0 lines startIndex parseNumberedLists camelCaseKeys = Inl stack_exhausted"
| "parseContent (Suc stack) lines startIndex parseNumberedLists camelCaseKeys =
     (if startIndex \<ge> length lines then Inr (JNull, startIndex)
      else
        (let line = lines ! startIndex in
         if startsWith ''- '' line then
           (let content = trim (drop 2 line) in
            case (if includes_str ''**'' content \<and> includes_str '':'' content
                  then kv_match content else None) of
              Some (k, v) \<Rightarrow>
                kv_bullet (\<lambda>i. parseContent stack lines i parseNumberedLists camelCaseKeys)
                  lines startIndex
                  (if camelCaseKeys then toCamelCase k else k)
                  (parseCellValue (trim v))
            | None \<Rightarrow> Inr (bullet_list lines startIndex content))
         else if parseNumberedLists \<and> is_numbered line then
           Inr (numbered_list lines startIndex line)
         else Inr (JNull, startIndex + 1)))"

subsection \<open>\<open>markdownToJson\<close>\<close>

record MarkdownToJsonOptions =
  parseNumberedLists :: "bool option"
  parseTables :: "bool option"
  camelCaseKeys :: "bool option"

record MarkdownToJsonResult =
  data :: json
  errors :: "string list"

definition no_options :: MarkdownToJsonOptions where
  \<comment> \<open>the empty options object \<open>{}\<close>\<close>
  "no_options = \<lparr>parseNumberedLists = None, parseTables = None, camelCaseKeys = None\<rparr>"

definition or_default :: "'a \<Rightarrow> 'a option \<Rightarrow> 'a" where
  "or_default d x = (case x of None \<Rightarrow> d | Some v \<Rightarrow> v)"

definition decode_lines ::
  "nat \<Rightarrow> string list \<Rightarrow> MarkdownToJsonOptions \<Rightarrow> string list \<Rightarrow> (js_error \<times> string list) + (json \<times> string list)" where
  \<comment> \<open>the body of the \<open>try\<close> after the lines are split, on the \<open>errors\<close> array: the value and
      the array, or the exception thrown and the array as it was then\<close>
  "decode_lines stack lines options errs =
     (if or_default True (parseTables options) \<and> isTable lines then
        (case parseTable lines errs (or_default False (camelCaseKeys options)) of
           (rows, errs') \<Rightarrow> Inr (JArr (map JObj rows), errs'))
      else
        (case parseContent stack lines 0 (or_default True (parseNumberedLists options))
                (or_default False (camelCaseKeys options)) of
           Inl e \<Rightarrow> Inl (e, errs)
         | Inr (v, nextIndex) \<Rightarrow> Inr (v, errs)))"

definition markdownToJson :: "nat \<Rightarrow> string \<Rightarrow> MarkdownToJsonOptions \<Rightarrow> MarkdownToJsonResult" where
  \<comment> \<open>the first argument is the room on the call stack, see \<open>parseContent\<close>\<close>
  "markdownToJson stack markdown options =
     (let lines = map trim (split (CHR 0x0A) markdown) in
      case decode_lines stack lines options [] of
        Inl (e, errs) \<Rightarrow> \<lparr>data = JNull, errors = errs @ [''Fatal error: '' @ message e]\<rparr>
      | Inr (v, errs) \<Rightarrow> \<lparr>data = v, errors = errs\<rparr>)"

section \<open>The encoder\<close>

text \<open>
  The encoder reads one thing the repository does not define: \<open>obj[key]\<close> in \<open>arrayToTable\<close>
  reads through the prototype chain when \<open>key\<close> is no own enumerable property of \<open>obj\<close>
  (a row without the key \<open>constructor\<close> has the inherited function there). What the
  runtime returns in that case is the parameter \<open>inherited\<close> of the model:
  \<open>inherited obj key\<close>, for a plain object and an ordinary key \<open>undefined\<close>.

  \<open>depth\<close> is a natural number; \<open>indentSize\<close>, \<open>headingLevel\<close> and \<open>maxDepth\<close> are integers
  (fractions, \<open>NaN\<close> and the infinities are not represented). \<open>' '.repeat(count)\<close> throws a
  \<open>RangeError\<close> on a negative count, so the encoder returns the text or the exception.
  The limits of the machine (the longest string an engine can hold, the call stack of
  the encoder) are not modelled.
\<close>

primrec escapeMarkdown :: "string \<Rightarrow> string" where
  \<comment> \<open>\<open>text.replace(/\|/g, '\\|')\<close>\<close>
  "escapeMarkdown [] = []"
| "escapeMarkdown (c # cs) =
     (if c = CHR ''|'' then CHR 0x5C # CHR ''|'' # escapeMarkdown cs else c # escapeMarkdown cs)"

definition repeat_space :: "int \<Rightarrow> js_error + string" where
  \<comment> \<open>\<open>' '.repeat(count)\<close>\<close>
  "repeat_space count =
     (if count < 0 then Inl (RangeError (''Invalid count value: '' @ number_to_string count 0))
      else Inr (replicate (nat count) (CHR '' '')))"

fun collect :: "(js_error + 'a) list \<Rightarrow> js_error + 'a list" where
  \<comment> \<open>the results of an \<open>Array.map\<close> whose callback may throw: the first exception, or all
      the values\<close>
  "collect [] = Inr []"
| "collect (r # rs) =
     (case r of
        Inl e \<Rightarrow> Inl e
      | Inr x \<Rightarrow> (case collect rs of Inl e \<Rightarrow> Inl e | Inr xs \<Rightarrow> Inr (x # xs)))"

fun isPrimitive :: "json \<Rightarrow> bool" where
  "isPrimitive JNull = True"
| "isPrimitive JUndefined = True"
| "isPrimitive (JStr s) = True"
| "isPrimitive (JNum m e) = True"
| "isPrimitive (JBool b) = True"
| "isPrimitive v = False"

fun is_object :: "json \<Rightarrow> bool" where
  \<comment> \<open>\<open>typeof v === 'object' && v !== null\<close>\<close>
  "is_object (JArr xs) = True"
| "is_object (JObj es) = True"
| "is_object (JDate d) = True"
| "is_object v = False"

fun isArray :: "json \<Rightarrow> bool" where
  "isArray (JArr xs) = True"
| "isArray v = False"

fun primitive_text :: "json \<Rightarrow> string" where
  \<comment> \<open>\<open>String(v)\<close>; the source calls it on values that are no objects\<close>
  "primitive_text JNull = ''null''"
| "primitive_text JUndefined = ''undefined''"
| "primitive_text (JBool b) = (if b then ''true'' else ''false'')"
| "primitive_text (JNum m e) = number_to_string m e"
| "primitive_text (JStr s) = s"
| "primitive_text (JOther t) = t"
| "primitive_text v = []"

definition isObjectArray :: "json list \<Rightarrow> bool" where
  "isObjectArray arr = (length arr > 0 \<and> list_all (\<lambda>item. is_object item \<and> \<not> isArray item) arr)"

fun own_keys :: "json \<Rightarrow> string list" where
  \<comment> \<open>\<open>Object.keys(obj)\<close>; a \<open>Date\<close> has no own enumerable property\<close>
  "own_keys (JObj es) = map fst es"
| "own_keys v = []"

fun get_prop :: "(json \<Rightarrow> string \<Rightarrow> json) \<Rightarrow> json \<Rightarrow> string \<Rightarrow> json" where
  \<comment> \<open>\<open>obj[key]\<close>: the own property, or what the prototype chain gives\<close>
  "get_prop inherited (JObj es) key =
     (case map_of es key of Some v \<Rightarrow> v | None \<Rightarrow> inherited (JObj es) key)"
| "get_prop inherited v key = inherited v key"


definition all_keys :: "json list \<Rightarrow> string list" where
  \<comment> \<open>the \<open>Set\<close> of all keys, in order of first insertion\<close>
  "all_keys arr =
     foldl (\<lambda>allKeys obj.
              foldl (\<lambda>acc key. if key \<in> set acc then acc else acc @ [key]) allKeys (own_keys obj))
       [] arr"

definition table_cell :: "json \<Rightarrow> string" where
  "table_cell v =
     (if v = JNull \<or> v = JUndefined then ''_null_''
      else if is_object v \<and> \<not> isArray v then ''_object_''
      else (case v of
              JArr xs \<Rightarrow> ''_array['' @ nat_to_string (length xs) @ '']_''
            | _ \<Rightarrow> escapeMarkdown (primitive_text v)))"

definition table_line :: "string list \<Rightarrow> string" where
  \<comment> \<open>a row of cells between pipes\<close>
  "table_line cells = ''| '' @ join '' | '' cells @ '' |''"

definition arrayToTable ::
  "(json \<Rightarrow> string \<Rightarrow> json) \<Rightarrow> json list \<Rightarrow> nat \<Rightarrow> int \<Rightarrow> int \<Rightarrow> js_error + string" where
  "arrayToTable inherited arr depth indentSize maxDepth =
     (if length arr = 0 then Inr []
      else (let keys = all_keys arr in
            if length keys = 0 then Inr []
            else (case repeat_space (int depth * indentSize) of
                    Inl e \<Rightarrow> Inl e
                  | Inr indent \<Rightarrow>
                      (let headerRow = table_line (map escapeMarkdown keys);
                           separatorRow = table_line (map (\<lambda>k. ''---'') keys);
                           rows = map (\<lambda>obj. table_line
                                                (map (\<lambda>key. table_cell (get_prop inherited obj key)) keys))
                                    arr
                       in Inr (join [CHR 0x0A]
                                 (map (\<lambda>row. indent @ row) (headerRow # separatorRow # rows)))))))"

definition truncation_marker :: string where
  "truncation_marker = ''_... (max depth reached)_''"

definition item_prefix :: "bool \<Rightarrow> nat \<Rightarrow> string" where
  \<comment> \<open>the bullet, or the 1-based number and a dot\<close>
  "item_prefix useNumberedLists index =
     (if useNumberedLists then nat_to_string (index + 1) @ ''.'' else ''-'')"

definition entry_line :: "string \<Rightarrow> string \<Rightarrow> json \<Rightarrow> string \<Rightarrow> string" where
  \<comment> \<open>the line of one entry of an object, from the rendering \<open>valStr\<close> of its value\<close>
  "entry_line indent key val valStr =
     (let keyStr = ''**'' @ escapeMarkdown key @ ''**:'' in
      if isPrimitive val then indent @ ''- '' @ keyStr @ '' '' @ valStr
      else if is_object val then indent @ ''- '' @ keyStr @ [CHR 0x0A] @ valStr
      else indent @ ''- '' @ keyStr @ '' '' @ valStr)"

fun convertValue ::
  "(json \<Rightarrow> string \<Rightarrow> json) \<Rightarrow> json \<Rightarrow> nat \<Rightarrow> int \<Rightarrow> int \<Rightarrow> bool \<Rightarrow> bool \<Rightarrow> int
     \<Rightarrow> js_error + string" where
  "convertValue inherited (JArr xs) depth headingLevel indentSize useNumberedLists arraysAsTables maxDepth =
     (if int depth > maxDepth then Inr truncation_marker
      else (case repeat_space (int depth * indentSize) of
              Inl e \<Rightarrow> Inl e
            | Inr indent \<Rightarrow>
                if arraysAsTables \<and> length xs > 0 \<and> isObjectArray xs
                then arrayToTable inherited xs depth indentSize maxDepth
                else if length xs = 0 then Inr (indent @ ''- _empty array_'')
                else (case collect
                             (map (\<lambda>item. convertValue inherited item (depth + 1) headingLevel
                                             indentSize useNumberedLists arraysAsTables maxDepth) xs) of
                        Inl e \<Rightarrow> Inl e
                      | Inr contents \<Rightarrow>
                          Inr (join [CHR 0x0A]
                                 (map2 (\<lambda>index itemContent.
                                          indent @ item_prefix useNumberedLists index @ '' ''
                                            @ itemContent)
                                    [0 ..< length xs] contents)))))"
| "convertValue inherited (JObj entries) depth headingLevel indentSize useNumberedLists arraysAsTables maxDepth =
     (if int depth > maxDepth then Inr truncation_marker
      else (case repeat_space (int depth * indentSize) of
              Inl e \<Rightarrow> Inl e
            | Inr indent \<Rightarrow>
                if length entries = 0 then Inr (indent @ ''_empty object_'')
                else (case collect
                             (map (\<lambda>(key, val).
                                     convertValue inherited val (depth + 1) headingLevel indentSize
                                       useNumberedLists arraysAsTables maxDepth) entries) of
                        Inl e \<Rightarrow> Inl e
                      | Inr contents \<Rightarrow>
                          Inr (join [CHR 0x0A]
                                 (map2 (\<lambda>(key, val) valStr. entry_line indent key val valStr)
                                    entries contents)))))"
| "convertValue inherited (JDate isoText) depth headingLevel indentSize useNumberedLists arraysAsTables maxDepth =
     (if int depth > maxDepth then Inr truncation_marker
      else (case repeat_space (int depth * indentSize) of
              Inl e \<Rightarrow> Inl e
            | Inr indent \<Rightarrow> Inr isoText))"
| "convertValue inherited (JStr s) depth headingLevel indentSize useNumberedLists arraysAsTables maxDepth =
     (if int depth > maxDepth then Inr truncation_marker
      else (case repeat_space (int depth * indentSize) of
              Inl e \<Rightarrow> Inl e
            | Inr indent \<Rightarrow> Inr (escapeMarkdown s)))"
| "convertValue inherited v depth headingLevel indentSize useNumberedLists arraysAsTables maxDepth =
     (if int depth > maxDepth then Inr truncation_marker
      else (case repeat_space (int depth * indentSize) of
              Inl e \<Rightarrow> Inl e
            | Inr indent \<Rightarrow> Inr (primitive_text v)))"

record JsonToMarkdownOptions =
  headingLevel :: "int option"
  indentSize :: "int option"
  useNumberedLists :: "bool option"
  arraysAsTables :: "bool option"
  maxDepth :: "int option"

definition no_encode_options :: JsonToMarkdownOptions where
  \<comment> \<open>the empty options object \<open>{}\<close>\<close>
  "no_encode_options =
     \<lparr>headingLevel = None, indentSize = None, useNumberedLists = None,
      arraysAsTables = None, maxDepth = None\<rparr>"

definition jsonToMarkdown ::
  "(json \<Rightarrow> string \<Rightarrow> json) \<Rightarrow> json \<Rightarrow> JsonToMarkdownOptions \<Rightarrow> js_error + string" where
  "jsonToMarkdown inherited data_in options =
     convertValue inherited data_in 0
       (or_default 1 (headingLevel options))
       (or_default 2 (indentSize options))
       (or_default False (useNumberedLists options))
       (or_default False (arraysAsTables options))
       (or_default 10 (maxDepth options))"

section \<open>Nesting of a value\<close>




section \<open>The call stack of \<open>parseContent\<close>\<close>

text \<open>
  A call that returns with some room on the stack returns the same with more room, and
  a stack with room for one activation per line is enough for every input: on an ideal
  machine \<open>parseContent\<close> always returns, with an index that moved forward.
\<close>

lemma list_items_next: "list_items t f lines n = (xs, m) \<Longrightarrow> n \<le> m"
  by (auto simp: list_items_def Let_def)

lemma nested_value_Inr: "nested_value r v n = Inr x \<Longrightarrow> \<exists>y. r = Inr y"
  by (cases r) (auto simp: nested_value_def)

lemma merge_more_Inr: "merge_more r obj n = Inr x \<Longrightarrow> \<exists>y. r = Inr y"
  by (cases r) (auto simp: merge_more_def)

lemma kv_bullet_mono:
  assumes "\<And>i r. f i = Inr r \<Longrightarrow> g i = Inr r"
    and "kv_bullet f lines i k v = Inr x"
  shows "kv_bullet g lines i k v = Inr x"
proof -
  let ?n = "i + 1"
  show ?thesis
  proof (cases "?n < length lines \<and> startsWith ''  '' (lines ! ?n)")
    case True
    with assms(2) obtain y where y: "nested_value (f ?n) v ?n = Inr y"
      by (auto simp: kv_bullet_def Let_def split: sum.splits)
    then obtain z where z: "f ?n = Inr z" using nested_value_Inr by blast
    then have gz: "g ?n = Inr z" using assms(1) by blast
    obtain v' n' where yv: "y = (v', n')" by (cases y)
    show ?thesis
    proof (cases "n' < length lines \<and> startsWith ''- '' (lines ! n')")
      case more: True
      with assms(2) True y yv z have m: "merge_more (f n') [(k, v')] n' = Inr x"
        by (auto simp: kv_bullet_def Let_def)
      then obtain w where "f n' = Inr w" using merge_more_Inr by blast
      then have "g n' = f n'" using assms(1) by simp
      with m True more y yv z gz show ?thesis
        by (auto simp: kv_bullet_def Let_def)
    next
      case False
      with assms(2) True y yv z gz show ?thesis
        by (auto simp: kv_bullet_def Let_def)
    qed
  next
    case False
    show ?thesis
    proof (cases "?n < length lines \<and> startsWith ''- '' (lines ! ?n)")
      case more: True
      with assms(2) False have m: "merge_more (f ?n) [(k, v)] ?n = Inr x"
        by (auto simp: kv_bullet_def Let_def)
      then obtain w where "f ?n = Inr w" using merge_more_Inr by blast
      then have "g ?n = f ?n" using assms(1) by simp
      with m False more show ?thesis
        by (auto simp: kv_bullet_def Let_def)
    next
      case last: False
      with assms(2) False show ?thesis
        by (auto simp: kv_bullet_def Let_def)
    qed
  qed
qed

lemma parseContent_more_stack:
  "parseContent stack lines i p c = Inr r \<Longrightarrow> parseContent (Suc stack) lines i p c = Inr r"
proof (induction stack arbitrary: i r p c)
  case 0
  then show ?case by simp
next
  case (Suc stack)
  have kv: "kv_bullet (\<lambda>i. parseContent (Suc stack) lines i p c) lines j k v = Inr x"
    if "kv_bullet (\<lambda>i. parseContent stack lines i p c) lines j k v = Inr x" for p c j k v x
    using that Suc.IH by (rule kv_bullet_mono[rotated])
  show ?case
    using Suc.prems
    apply (subst parseContent.simps(2))
    apply (subst (asm) parseContent.simps(2))
    apply (auto simp: Let_def simp del: parseContent.simps
                split: if_splits option.splits prod.splits dest: kv)
    done
qed

lemma parseContent_stack_add:
  "parseContent stack lines i p c = Inr r \<Longrightarrow> parseContent (stack + k) lines i p c = Inr r"
  by (induction k) (auto simp del: parseContent.simps intro: parseContent_more_stack)

lemma kv_bullet_returns:
  assumes "\<And>j. i < j \<Longrightarrow> \<exists>v n. f j = Inr (v, n) \<and> j \<le> n"
  shows "\<exists>v n. kv_bullet f lines i k val = Inr (v, n) \<and> i < n"
proof -
  let ?n = "i + 1"
  obtain v1 n1 where f1: "f ?n = Inr (v1, n1)" "?n \<le> n1" using assms[of ?n] by auto
  define r1 where "r1 = (if ?n < length lines \<and> startsWith ''  '' (lines ! ?n)
            then nested_value (f ?n) val ?n else Inr (val, ?n))"
  have "\<exists>v' n'. r1 = Inr (v', n') \<and> i < n'"
    using f1 by (auto simp: r1_def nested_value_def)
  then obtain v' n' where r1: "r1 = Inr (v', n')" "i < n'" by blast
  obtain v2 n2 where f2: "f n' = Inr (v2, n2)" "n' \<le> n2" using assms[of n'] r1(2) by auto
  have "\<exists>v n. merge_more (f n') [(k, v')] n' = Inr (v, n) \<and> i < n"
    using f2 r1(2) by (auto simp: merge_more_def split: json.splits)
  then show ?thesis
    using r1 unfolding kv_bullet_def Let_def r1_def[symmetric] by auto
qed

lemma parseContent_returns:
  "length lines - i < stack \<Longrightarrow>
     \<exists>v n. parseContent stack lines i p c = Inr (v, n) \<and> i \<le> n \<and> (i < length lines \<longrightarrow> i < n)"
proof (induction stack arbitrary: i)
  case 0
  then show ?case by simp
next
  case (Suc stack)
  show ?case
  proof (cases "i < length lines")
    case False
    then show ?thesis by simp
  next
    case True
    have rec: "\<exists>v n. parseContent stack lines j p c = Inr (v, n) \<and> j \<le> n" if "i < j" for j
      using Suc.IH[of j] Suc.prems True that by fastforce
    have kv: "\<exists>v n. kv_bullet (\<lambda>i. parseContent stack lines i p c) lines i k val = Inr (v, n)
                \<and> i \<le> n \<and> i < n" for k val
      using kv_bullet_returns[of i "\<lambda>i. parseContent stack lines i p c" lines k val] rec
      by fastforce
    have li: "i < snd (list_items t f lines (Suc i))" for t f
      by (simp add: list_items_def Let_def)
    show ?thesis
      using True kv li
      apply (subst parseContent.simps(2))
      apply (simp add: Let_def bullet_list_def numbered_list_def
                  split: option.splits prod.splits del: parseContent.simps)
      apply (auto simp: less_imp_le dest: list_items_next simp del: parseContent.simps)
      done
  qed
qed

lemma decode_lines_stack_add:
  "decode_lines stack lines opts errs = Inr r \<Longrightarrow> decode_lines (stack + k) lines opts errs = Inr r"
  by (auto simp: decode_lines_def split: if_splits sum.splits prod.splits
           dest: parseContent_stack_add[where k = k])

lemma markdownToJson_stack_add:
  assumes "decode_lines stack (map trim (split (CHR 0x0A) markdown)) opts [] = Inr (v, errs)"
  shows "markdownToJson (stack + k) markdown opts = \<lparr>data = v, errors = errs\<rparr>"
  using decode_lines_stack_add[OF assms, of k] by (simp add: markdownToJson_def)

lemma markdownToJson_enough_stack:
  assumes "length (split (CHR 0x0A) markdown) < stack"
  shows "\<exists>v errs. decode_lines stack (map trim (split (CHR 0x0A) markdown)) opts [] = Inr (v, errs)"
proof -
  let ?lines = "map trim (split (CHR 0x0A) markdown)"
  have "length ?lines - 0 < stack" using assms by simp
  from parseContent_returns[OF this]
  obtain v n where "parseContent stack ?lines 0 (or_default True (parseNumberedLists opts))
                      (or_default False (camelCaseKeys opts)) = Inr (v, n)"
    by blast
  then show ?thesis
    by (cases "parseTable ?lines [] (or_default False (camelCaseKeys opts))")
       (simp add: decode_lines_def)
qed

section \<open>The decoder and the round trips on concrete texts\<close>

lemma trim_head_not_space:
  assumes "trim l = c # cs"
  shows "\<not> isSpace c"
proof -
  let ?ys = "dropWhile isSpace l"
  have "?ys = rev (dropWhile isSpace (rev ?ys)) @ rev (takeWhile isSpace (rev ?ys))"
    by (metis rev_append rev_rev_ident takeWhile_dropWhile_id)
  then have "?ys = trim l @ rev (takeWhile isSpace (rev ?ys))"
    unfolding trim_def .
  with assms have ys: "?ys = c # (cs @ rev (takeWhile isSpace (rev ?ys)))" by simp
  then have "hd ?ys = c" and "?ys \<noteq> []" by (metis list.sel(1), metis list.distinct(1))
  then show ?thesis using hd_dropWhile[of isSpace l] by auto
qed

lemma trimmed_line_not_indented: "\<not> startsWith ''  '' (trim l)"
proof (cases "trim l")
  case Nil
  then show ?thesis by (simp add: startsWith_def)
next
  case (Cons c cs)
  then have "\<not> isSpace c" by (rule trim_head_not_space)
  then have "c \<noteq> CHR '' ''" by (auto simp: isSpace_def)
  with Cons show ?thesis by (simp add: startsWith_def)
qed

text \<open>
  On the trimmed lines \<open>markdownToJson\<close> works on, the nested branch of a key-value bullet
  is dead: the bullet keeps its inline value and goes on to the next bullet.
\<close>

lemma nested_branch_dead:
  "kv_bullet recur (map trim ls) i key val
   = (if i + 1 < length ls \<and> startsWith ''- '' (trim (ls ! (i + 1)))
      then merge_more (recur (i + 1)) [(key, val)] (i + 1)
      else Inr (JObj [(key, val)], i + 1))"
proof (cases "i + 1 < length ls")
  case True
  then have "map trim ls ! (i + 1) = trim (ls ! (i + 1))" by simp
  then show ?thesis using True
    by (simp add: kv_bullet_def Let_def trimmed_line_not_indented del: nth_map)
next
  case False
  then show ?thesis by (simp add: kv_bullet_def Let_def)
qed

lemma nested_block_lines:
  "decode_lines 2 (map trim (split (CHR 0x0A) (join [CHR 0x0A] [''- **user**: x'', ''  - **name**: John''])))
     no_options []
   = Inr (JObj [(''user'', JStr ''x''), (''name'', JStr ''John'')], [])"
  by code_simp

lemma nested_test_lines:
  "decode_lines 1
     (map trim (split (CHR 0x0A)
        (join [CHR 0x0A] [''- **user**:'', ''  - **name**: John'', ''  - **age**: 30''])))
     no_options []
   = Inr (JArr [JStr ''**user**:'', JStr ''**name**: John'', JStr ''**age**: 30''], [])"
  by code_simp

text \<open>
  C1. The claim: when a key-value bullet is followed by a line that begins with two spaces,
  the nested block is parsed and becomes the value of the key. The code does not do this:
  \<open>markdownToJson\<close> trims every line before \<open>parseContent\<close> looks for the two spaces, so the
  test \<open>lines[nextIndex].startsWith('  ')\<close> never holds. For the bullet \<open>- **user**: x\<close> followed
  by the indented bullet \<open>- **name**: John\<close> the result keeps the inline value \<open>x\<close> for
  \<open>user\<close> and adds \<open>name\<close> as a second key of the same object, whatever the room on the stack
  (from two activations on). The text of the repository's test "should parse nested
  objects", where the first bullet has no inline value and so is no key-value bullet to the
  pattern, decodes to an array of three strings, with no property \<open>user\<close>.
\<close>

theorem nested_block_not_parsed:
  "markdownToJson (stack + 2) (join [CHR 0x0A] [''- **user**: x'', ''  - **name**: John'']) no_options
     = \<lparr>data = JObj [(''user'', JStr ''x''), (''name'', JStr ''John'')], errors = []\<rparr>
   \<and> markdownToJson (stack + 1)
        (join [CHR 0x0A] [''- **user**:'', ''  - **name**: John'', ''  - **age**: 30'']) no_options
     = \<lparr>data = JArr [JStr ''**user**:'', JStr ''**name**: John'', JStr ''**age**: 30''],
        errors = []\<rparr>"
  using markdownToJson_stack_add[OF nested_block_lines, of stack]
    markdownToJson_stack_add[OF nested_test_lines, of stack]
  by (simp add: add.commute)

text \<open>
  The table branch reads \<open>lines\<close> within range only: the bounds the first loop finds are
  indices of \<open>lines\<close>, so no read of the row loop is out of range.
\<close>

lemma table_bounds_in_range:
  assumes "table_bounds ls i start e = (Some a, b)"
    and "e = i + length ls"
    and "\<forall>s. start = Some s \<longrightarrow> s < i"
  shows "a < b \<and> b \<le> i + length ls"
  using assms
proof (induction ls arbitrary: i start)
  case Nil
  then show ?case by auto
next
  case (Cons l ls)
  show ?case
  proof (cases "is_pipe_line l")
    case True
    with Cons.prems have "table_bounds ls (i + 1) (if start = None then Some i else start) e = (Some a, b)"
      by simp
    moreover have "e = (i + 1) + length ls" using Cons.prems(2) by simp
    moreover have "\<forall>s. (if start = None then Some i else start) = Some s \<longrightarrow> s < i + 1"
      using Cons.prems(3) by (auto simp: less_Suc_eq)
    ultimately have "a < b \<and> b \<le> (i + 1) + length ls" by (rule Cons.IH)
    then show ?thesis by simp
  next
    case False
    show ?thesis
    proof (cases start)
      case None
      with False Cons.prems have "table_bounds ls (i + 1) start e = (Some a, b)" by simp
      moreover have "e = (i + 1) + length ls" using Cons.prems(2) by simp
      moreover have "\<forall>s. start = Some s \<longrightarrow> s < i + 1" using None by simp
      ultimately have "a < b \<and> b \<le> (i + 1) + length ls" by (rule Cons.IH)
      then show ?thesis by simp
    next
      case (Some s)
      with False Cons.prems show ?thesis by auto
    qed
  qed
qed

lemma parseTable_reads_in_range:
  "table_bounds lines 0 None (length lines) = (Some startIndex, endIndex)
     \<Longrightarrow> startIndex < endIndex \<and> endIndex \<le> length lines"
  using table_bounds_in_range[of lines 0 None "length lines" startIndex endIndex] by simp

text \<open>
  The cells of a row are cut to the number of headers before they are counted: the filter
  by index keeps the cells 1 to \<open>n\<close>. A row with more cells than headers therefore always
  passes the count and is added to the result without a diagnostic.
\<close>

lemma filter_by_index:
  "map snd (filter (\<lambda>(idx, c). idx > 0 \<and> idx \<le> n) (enumerate k xs))
   = (if k = 0 then take n (drop 1 xs) else take (Suc n - k) xs)"
proof (induction xs arbitrary: k)
  case Nil
  then show ?case by simp
next
  case (Cons x xs)
  show ?case
  proof (cases "k = 0")
    case True
    then show ?thesis using Cons[of 1] by simp
  next
    case False
    then show ?thesis using Cons[of "Suc k"]
      by (cases "k \<le> n") (auto simp: Suc_diff_le)
  qed
qed

lemma row_cells_take: "row_cells n row = take n (drop 1 (map trim (split (CHR ''|'') row)))"
  by (simp add: row_cells_def filter_by_index)

lemma surplus_cells_pass:
  "n < length (split (CHR ''|'') row) \<Longrightarrow> length (row_cells n row) = n"
  by (simp add: row_cells_take)

lemma surplus_row_accepted:
  assumes "is_pipe_line (lines ! i)" and "length headers < length (split (CHR ''|'') (lines ! i))"
  shows "table_row lines headers startIndex (result, errs) i
         = (result @ [row_object headers (row_cells (length headers) (lines ! i))], errs)"
  using assms surplus_cells_pass[OF assms(2)]
  by (simp add: table_row_def is_pipe_line_def Let_def)

lemma mismatched_row_lines:
  "decode_lines 0
     (map trim (split (CHR 0x0A)
        (join [CHR 0x0A] [''| col1 | col2 |'', ''| --- | --- |'', ''| value1 | value2 | value3 |''])))
     no_options []
   = Inr (JArr [JObj [(''col1'', JStr ''value1''), (''col2'', JStr ''value2'')]], [])"
  by code_simp

text \<open>
  C2. The claim: a data row with 3 cells under a header of 2 columns gives a diagnostic and
  is left out of the output. The code keeps the row: \<open>row_cells\<close> filters the cells to the
  indices 1 to \<open>headers.length\<close> before they are counted, so the third cell is dropped
  unseen, the count equals the header count, and no diagnostic is pushed. This is the
  table of the repository's test "should handle table with mismatched columns".
\<close>

theorem mismatched_row_kept_without_diagnostic:
  "markdownToJson stack
     (join [CHR 0x0A] [''| col1 | col2 |'', ''| --- | --- |'', ''| value1 | value2 | value3 |''])
     no_options
   = \<lparr>data = JArr [JObj [(''col1'', JStr ''value1''), (''col2'', JStr ''value2'')]], errors = []\<rparr>"
  using markdownToJson_stack_add[OF mismatched_row_lines, of stack] by simp

lemma split_no_sep: "sep \<notin> set x \<Longrightarrow> split sep x = [x]"
  by (induction x) auto











lemma camel_case_lines:
  "decode_lines 1 (map trim (split (CHR 0x0A) ''- **first_name**: John''))
     (no_options\<lparr>camelCaseKeys := Some True\<rparr>) []
   = Inr (JObj [(''firstname'', JStr ''John'')], [])"
  by code_simp

text \<open>
  C4. The claim: \<open>- **first_name**: John\<close> decoded with \<open>camelCaseKeys\<close> has the key
  \<open>firstName\<close>. The code gives \<open>firstname\<close>: the underscore is a word character, so there is
  no word boundary before the \<open>n\<close> and the pattern of \<open>toCamelCase\<close> does not match it; the
  underscore is then removed. With a hyphen or a space as separator the letter is raised.
\<close>

theorem camel_case_of_underscore_key:
  "markdownToJson (stack + 1) ''- **first_name**: John'' (no_options\<lparr>camelCaseKeys := Some True\<rparr>)
     = \<lparr>data = JObj [(''firstname'', JStr ''John'')], errors = []\<rparr>
   \<and> toCamelCase ''first_name'' = ''firstname''
   \<and> toCamelCase ''first-name'' = ''firstName''
   \<and> toCamelCase ''first name'' = ''firstName''"
proof -
  have "toCamelCase ''first_name'' = ''firstname''" by code_simp
  moreover have "toCamelCase ''first-name'' = ''firstName''" by code_simp
  moreover have "toCamelCase ''first name'' = ''firstName''" by code_simp
  ultimately show ?thesis
    using markdownToJson_stack_add[OF camel_case_lines, of stack] by (simp add: add.commute)
qed

lemma scalars_encoded:
  "jsonToMarkdown inherited
     (JObj [(''count'', JNum 42 0), (''price'', JNum 1999 2),
            (''active'', JBool True), (''disabled'', JBool False)])
     no_encode_options
   = Inr (join [CHR 0x0A]
       [''- **count**: 42'', ''- **price**: 19.99'', ''- **active**: true'', ''- **disabled**: false''])"
  by code_simp

lemma scalars_decoded:
  "decode_lines 4
     (map trim (split (CHR 0x0A)
        (join [CHR 0x0A]
           [''- **count**: 42'', ''- **price**: 19.99'', ''- **active**: true'',
            ''- **disabled**: false''])))
     no_options []
   = Inr (JObj [(''count'', JNum 42 0), (''price'', JNum 1999 2),
                (''active'', JBool True), (''disabled'', JBool False)], [])"
  by code_simp

text \<open>
  C5. Encoding \<open>{ count: 42, price: 19.99, active: true, disabled: false }\<close> with the default
  options gives a text (no exception), and decoding that text with the default options
  gives the same object back, \<open>count\<close> and \<open>price\<close> as numbers (19.99 is \<open>JNum 1999 2\<close>),
  \<open>active\<close> and \<open>disabled\<close> as booleans, and no diagnostic. The four bullets need four
  activations of \<open>parseContent\<close>.
\<close>

theorem scalars_round_trip:
  "jsonToMarkdown inherited
     (JObj [(''count'', JNum 42 0), (''price'', JNum 1999 2),
            (''active'', JBool True), (''disabled'', JBool False)])
     no_encode_options
     = Inr (join [CHR 0x0A]
         [''- **count**: 42'', ''- **price**: 19.99'', ''- **active**: true'',
          ''- **disabled**: false''])
   \<and> markdownToJson (stack + 4)
         (join [CHR 0x0A]
            [''- **count**: 42'', ''- **price**: 19.99'', ''- **active**: true'',
             ''- **disabled**: false''])
         no_options
     = \<lparr>data = JObj [(''count'', JNum 42 0), (''price'', JNum 1999 2),
                      (''active'', JBool True), (''disabled'', JBool False)],
        errors = []\<rparr>"
  using scalars_encoded[of inherited] markdownToJson_stack_add[OF scalars_decoded, of stack]
  by (simp add: add.commute)

lemma table_encoded:
  "jsonToMarkdown inherited
     (JArr [JObj [(''name'', JStr ''John''), (''age'', JNum 30 0)],
            JObj [(''name'', JStr ''Jane''), (''age'', JNum 25 0)]])
     (no_encode_options\<lparr>arraysAsTables := Some True\<rparr>)
   = Inr (join [CHR 0x0A] [''| name | age |'', ''| --- | --- |'', ''| John | 30 |'', ''| Jane | 25 |''])"
  by code_simp

lemma table_split:
  "split (CHR 0x0A)
     (join [CHR 0x0A] [''| name | age |'', ''| --- | --- |'', ''| John | 30 |'', ''| Jane | 25 |''])
   = [''| name | age |'', ''| --- | --- |'', ''| John | 30 |'', ''| Jane | 25 |'']"
  by code_simp

lemma table_decoded:
  "decode_lines 0
     (map trim (split (CHR 0x0A)
        (join [CHR 0x0A] [''| name | age |'', ''| --- | --- |'', ''| John | 30 |'', ''| Jane | 25 |''])))
     (no_options\<lparr>parseTables := Some True\<rparr>) []
   = Inr (JArr [JObj [(''name'', JStr ''John''), (''age'', JNum 30 0)],
                JObj [(''name'', JStr ''Jane''), (''age'', JNum 25 0)]], [])"
  by code_simp

text \<open>
  C6. With \<open>arraysAsTables\<close> the array \<open>[{name: "John", age: 30}, {name: "Jane", age: 25}]\<close> is
  encoded as a text of four lines: the header row with \<open>name\<close> and \<open>age\<close>, the separator row,
  and the two data rows in the order of the input. Decoding that text with \<open>parseTables\<close>
  gives the array of the two objects back, the ages as numbers, with no diagnostic.
\<close>

theorem table_round_trip:
  "jsonToMarkdown inherited
     (JArr [JObj [(''name'', JStr ''John''), (''age'', JNum 30 0)],
            JObj [(''name'', JStr ''Jane''), (''age'', JNum 25 0)]])
     (no_encode_options\<lparr>arraysAsTables := Some True\<rparr>)
     = Inr (join [CHR 0x0A]
              [''| name | age |'', ''| --- | --- |'', ''| John | 30 |'', ''| Jane | 25 |''])
   \<and> split (CHR 0x0A)
        (join [CHR 0x0A] [''| name | age |'', ''| --- | --- |'', ''| John | 30 |'', ''| Jane | 25 |''])
     = [''| name | age |'', ''| --- | --- |'', ''| John | 30 |'', ''| Jane | 25 |'']
   \<and> markdownToJson stack
        (join [CHR 0x0A] [''| name | age |'', ''| --- | --- |'', ''| John | 30 |'', ''| Jane | 25 |''])
        (no_options\<lparr>parseTables := Some True\<rparr>)
     = \<lparr>data = JArr [JObj [(''name'', JStr ''John''), (''age'', JNum 30 0)],
                      JObj [(''name'', JStr ''Jane''), (''age'', JNum 25 0)]],
        errors = []\<rparr>"
  using table_encoded[of inherited] table_split
    markdownToJson_stack_add[OF table_decoded, of stack]
  by simp

section \<open>Failure of the decoder\<close>

text \<open>
  The only exception the body of the \<open>try\<close> can raise on a string is the \<open>RangeError\<close> of an
  exhausted call stack, in \<open>parseContent\<close>; the table branch does not recurse. It is
  reached: with room for one activation, two key-value bullets are too many.
\<close>

lemma stack_exhaustion_is_reported:
  "markdownToJson 1 (join [CHR 0x0A] [''- **a**: 1'', ''- **b**: 2'']) no_options
   = \<lparr>data = JNull, errors = [''Fatal error: Maximum call stack size exceeded'']\<rparr>"
  by code_simp

text \<open>
  C7. For every text, every options record and every room on the call stack,
  \<open>markdownToJson\<close> returns a result record. Either the body of the \<open>try\<close> returned a value
  and the diagnostics, and the caller gets exactly these; or it raised an exception \<open>e\<close>,
  no diagnostic having been recorded before, and the caller gets the value \<open>null\<close> and exactly
  one diagnostic, \<open>Fatal error: \<close> followed by the message of \<open>e\<close>.
\<close>

theorem markdownToJson_never_throws:
  "(\<exists>v errs. decode_lines stack (map trim (split (CHR 0x0A) markdown)) opts [] = Inr (v, errs)
        \<and> markdownToJson stack markdown opts = \<lparr>data = v, errors = errs\<rparr>)
   \<or> (\<exists>e. decode_lines stack (map trim (split (CHR 0x0A) markdown)) opts [] = Inl (e, [])
        \<and> markdownToJson stack markdown opts
            = \<lparr>data = JNull, errors = [''Fatal error: '' @ message e]\<rparr>)"
proof (cases "decode_lines stack (map trim (split (CHR 0x0A) markdown)) opts []")
  case (Inl a)
  then obtain e where "a = (e, [])"
    by (cases a) (auto simp: decode_lines_def split: if_splits prod.splits sum.splits)
  with Inl show ?thesis by (simp add: markdownToJson_def)
next
  case (Inr b)
  then show ?thesis by (cases b) (simp add: markdownToJson_def)
qed

section \<open>Escaping\<close>

lemma escapeMarkdown_append: "escapeMarkdown (xs @ ys) = escapeMarkdown xs @ escapeMarkdown ys"
  by (induction xs) auto

lemma escapeMarkdown_length:
  "length (escapeMarkdown s) = length s + count_list s (CHR ''|'')"
  by (induction s) auto

lemma escapeMarkdown_without_backslashes:
  "filter (\<lambda>c. c \<noteq> CHR 0x5C) (escapeMarkdown s) = filter (\<lambda>c. c \<noteq> CHR 0x5C) s"
  by (induction s) auto

lemma entry_line_key:
  "entry_line indent key val valStr
   = indent @ ''- **'' @ escapeMarkdown key @ ''**:''
       @ (if isPrimitive val \<or> \<not> is_object val then '' '' else [CHR 0x0A]) @ valStr"
  by (cases val) (simp_all add: entry_line_def)

lemma entry_line_key_fun:
  "entry_line indent
   = (\<lambda>key val valStr. indent @ ''- **'' @ escapeMarkdown key @ ''**:''
                  @ (if isPrimitive val \<or> \<not> is_object val then '' '' else [CHR 0x0A]) @ valStr)"
  by (intro ext) (rule entry_line_key)

lemma pipes_in_a_list:
  "jsonToMarkdown inherited (JArr [JStr ''a|b'', JStr ''c'']) no_encode_options
   = Inr (join [CHR 0x0A] [''- a'' @ [CHR 0x5C] @ ''|b'', ''- c''])"
  by code_simp

lemma pipes_in_an_object:
  "jsonToMarkdown inherited (JObj [(''k|1'', JStr ''v|2'')]) no_encode_options
   = Inr (''- **k'' @ [CHR 0x5C] @ ''|1**: v'' @ [CHR 0x5C] @ ''|2'')"
  by code_simp

lemma pipes_in_a_table:
  "jsonToMarkdown inherited (JArr [JObj [(''k|1'', JStr ''v|2'')]])
     (no_encode_options\<lparr>arraysAsTables := Some True\<rparr>)
   = Inr (join [CHR 0x0A]
            [''| k'' @ [CHR 0x5C] @ ''|1 |'', ''| --- |'', ''| v'' @ [CHR 0x5C] @ ''|2 |''])"
  by code_simp

text \<open>
  C8. \<open>escapeMarkdown\<close> replaces every \<open>|\<close> of a string by a backslash and \<open>|\<close> and leaves every
  other character as it is. The encoder applies it wherever it writes a string or a key:
  \<open>jsonToMarkdown\<close> is \<open>convertValue\<close> at depth 0; \<open>convertValue\<close> writes a string through
  \<open>escapeMarkdown\<close>, writes the items of an array and the values of an object through
  \<open>convertValue\<close> again, writes the key of every entry of an object through \<open>escapeMarkdown\<close>,
  and hands a non-empty array of objects to \<open>arrayToTable\<close> when \<open>arraysAsTables\<close> is on;
  \<open>arrayToTable\<close> writes every key of the header row and every cell that is no object,
  array, \<open>null\<close> or \<open>undefined\<close> (a string, a number, a boolean) through \<open>escapeMarkdown\<close>. (Beyond \<open>maxDepth\<close> nothing but the marker is written, and
  a negative indentation makes \<open>' '.repeat\<close> throw before anything is written.) The three
  texts at the end show a pipe escaped in a list item, in a key and its value, and in a
  header and a cell.
\<close>

theorem escaping_rule:
  "escapeMarkdown s = concat (map (\<lambda>c. if c = CHR ''|'' then [CHR 0x5C, CHR ''|''] else [c]) s)
   \<and> jsonToMarkdown inherited v opts
       = convertValue inherited v 0 (or_default 1 (headingLevel opts))
           (or_default 2 (indentSize opts)) (or_default False (useNumberedLists opts))
           (or_default False (arraysAsTables opts)) (or_default 10 (maxDepth opts))
   \<and> convertValue inherited (JStr s) depth hl ind unl aat md
       = (if md < int depth then Inr truncation_marker
          else (case repeat_space (int depth * ind) of
                  Inl e \<Rightarrow> Inl e
                | Inr indent \<Rightarrow> Inr (escapeMarkdown s)))
   \<and> convertValue inherited (JArr xs) depth hl ind unl aat md
       = (if md < int depth then Inr truncation_marker
          else (case repeat_space (int depth * ind) of
                  Inl e \<Rightarrow> Inl e
                | Inr indent \<Rightarrow>
                    if aat \<and> xs \<noteq> [] \<and> isObjectArray xs
                    then arrayToTable inherited xs depth ind md
                    else if xs = [] then Inr (indent @ ''- _empty array_'')
                    else (case collect (map (\<lambda>item. convertValue inherited item (depth + 1)
                                                        hl ind unl aat md) xs) of
                            Inl e \<Rightarrow> Inl e
                          | Inr contents \<Rightarrow>
                              Inr (join [CHR 0x0A]
                                     (map2 (\<lambda>index itemContent.
                                              indent @ item_prefix unl index @ '' '' @ itemContent)
                                        [0 ..< length xs] contents)))))
   \<and> convertValue inherited (JObj entries) depth hl ind unl aat md
       = (if md < int depth then Inr truncation_marker
          else (case repeat_space (int depth * ind) of
                  Inl e \<Rightarrow> Inl e
                | Inr indent \<Rightarrow>
                    if entries = [] then Inr (indent @ ''_empty object_'')
                    else (case collect (map (\<lambda>(key, val). convertValue inherited val (depth + 1)
                                                              hl ind unl aat md) entries) of
                            Inl e \<Rightarrow> Inl e
                          | Inr contents \<Rightarrow>
                              Inr (join [CHR 0x0A]
                                     (map2 (\<lambda>(key, val) valStr.
                                              indent @ ''- **'' @ escapeMarkdown key @ ''**:''
                                                @ (if isPrimitive val \<or> \<not> is_object val
                                                   then '' '' else [CHR 0x0A])
                                                @ valStr)
                                        entries contents)))))
   \<and> arrayToTable inherited arr depth ind md
       = (if arr = [] \<or> all_keys arr = [] then Inr []
          else (case repeat_space (int depth * ind) of
                  Inl e \<Rightarrow> Inl e
                | Inr indent \<Rightarrow>
                    Inr (join [CHR 0x0A]
                           (map (\<lambda>row. indent @ row)
                              ((''| '' @ join '' | '' (map escapeMarkdown (all_keys arr)) @ '' |'')
                               # (''| '' @ join '' | '' (map (\<lambda>k. ''---'') (all_keys arr)) @ '' |'')
                               # map (\<lambda>obj. ''| '' @ join '' | ''
                                                 (map (\<lambda>key. table_cell (get_prop inherited obj key))
                                                    (all_keys arr))
                                               @ '' |'') arr)))))
   \<and> table_cell (JStr s) = escapeMarkdown s
   \<and> table_cell (JNum m e) = escapeMarkdown (number_to_string m e)
   \<and> table_cell (JBool b) = escapeMarkdown (if b then ''true'' else ''false'')
   \<and> table_cell (JOther t) = escapeMarkdown t
   \<and> jsonToMarkdown inherited (JArr [JStr ''a|b'', JStr ''c'']) no_encode_options
       = Inr (join [CHR 0x0A] [''- a'' @ [CHR 0x5C] @ ''|b'', ''- c''])
   \<and> jsonToMarkdown inherited (JObj [(''k|1'', JStr ''v|2'')]) no_encode_options
       = Inr (''- **k'' @ [CHR 0x5C] @ ''|1**: v'' @ [CHR 0x5C] @ ''|2'')
   \<and> jsonToMarkdown inherited (JArr [JObj [(''k|1'', JStr ''v|2'')]])
         (no_encode_options\<lparr>arraysAsTables := Some True\<rparr>)
       = Inr (join [CHR 0x0A]
                [''| k'' @ [CHR 0x5C] @ ''|1 |'', ''| --- |'', ''| v'' @ [CHR 0x5C] @ ''|2 |''])"
proof -
  have rule: "escapeMarkdown s
      = concat (map (\<lambda>c. if c = CHR ''|'' then [CHR 0x5C, CHR ''|''] else [c]) s)"
    by (induction s) auto
  have top: "jsonToMarkdown inherited v opts
       = convertValue inherited v 0 (or_default 1 (headingLevel opts))
           (or_default 2 (indentSize opts)) (or_default False (useNumberedLists opts))
           (or_default False (arraysAsTables opts)) (or_default 10 (maxDepth opts))"
    by (simp add: jsonToMarkdown_def)
  have str: "convertValue inherited (JStr s) depth hl ind unl aat md
       = (if md < int depth then Inr truncation_marker
          else (case repeat_space (int depth * ind) of
                  Inl e \<Rightarrow> Inl e
                | Inr indent \<Rightarrow> Inr (escapeMarkdown s)))"
    by simp
  have arr: "convertValue inherited (JArr xs) depth hl ind unl aat md
       = (if md < int depth then Inr truncation_marker
          else (case repeat_space (int depth * ind) of
                  Inl e \<Rightarrow> Inl e
                | Inr indent \<Rightarrow>
                    if aat \<and> xs \<noteq> [] \<and> isObjectArray xs
                    then arrayToTable inherited xs depth ind md
                    else if xs = [] then Inr (indent @ ''- _empty array_'')
                    else (case collect (map (\<lambda>item. convertValue inherited item (depth + 1)
                                                        hl ind unl aat md) xs) of
                            Inl e \<Rightarrow> Inl e
                          | Inr contents \<Rightarrow>
                              Inr (join [CHR 0x0A]
                                     (map2 (\<lambda>index itemContent.
                                              indent @ item_prefix unl index @ '' '' @ itemContent)
                                        [0 ..< length xs] contents)))))"
    by (cases "repeat_space (int depth * ind)") simp_all
  have obj: "convertValue inherited (JObj entries) depth hl ind unl aat md
       = (if md < int depth then Inr truncation_marker
          else (case repeat_space (int depth * ind) of
                  Inl e \<Rightarrow> Inl e
                | Inr indent \<Rightarrow>
                    if entries = [] then Inr (indent @ ''_empty object_'')
                    else (case collect (map (\<lambda>(key, val). convertValue inherited val (depth + 1)
                                                              hl ind unl aat md) entries) of
                            Inl e \<Rightarrow> Inl e
                          | Inr contents \<Rightarrow>
                              Inr (join [CHR 0x0A]
                                     (map2 (\<lambda>(key, val) valStr.
                                              indent @ ''- **'' @ escapeMarkdown key @ ''**:''
                                                @ (if isPrimitive val \<or> \<not> is_object val
                                                   then '' '' else [CHR 0x0A])
                                                @ valStr)
                                        entries contents)))))"
    by (cases "repeat_space (int depth * ind)")
       (simp_all add: entry_line_key_fun cong: sum.case_cong)
  have tab: "arrayToTable inherited arr depth ind md
       = (if arr = [] \<or> all_keys arr = [] then Inr []
          else (case repeat_space (int depth * ind) of
                  Inl e \<Rightarrow> Inl e
                | Inr indent \<Rightarrow>
                    Inr (join [CHR 0x0A]
                           (map (\<lambda>row. indent @ row)
                              ((''| '' @ join '' | '' (map escapeMarkdown (all_keys arr)) @ '' |'')
                               # (''| '' @ join '' | '' (map (\<lambda>k. ''---'') (all_keys arr)) @ '' |'')
                               # map (\<lambda>obj. ''| '' @ join '' | ''
                                                 (map (\<lambda>key. table_cell (get_prop inherited obj key))
                                                    (all_keys arr))
                                               @ '' |'') arr)))))"
    by (cases "repeat_space (int depth * ind)")
       (simp_all add: arrayToTable_def table_line_def Let_def)
  have cells: "table_cell (JStr s) = escapeMarkdown s"
    "table_cell (JNum m e) = escapeMarkdown (number_to_string m e)"
    "table_cell (JBool b) = escapeMarkdown (if b then ''true'' else ''false'')"
    "table_cell (JOther t) = escapeMarkdown t"
    by (simp_all add: table_cell_def)
  from rule top str arr obj tab cells
    pipes_in_a_list[of inherited] pipes_in_an_object[of inherited] pipes_in_a_table[of inherited]
  show ?thesis by blast
qed

section \<open>The depth guard\<close>




















section \<open>Indentation\<close>

lemma split_append_sep: "sep \<notin> set x \<Longrightarrow> split sep (x @ sep # r) = x # split sep r"
  by (induction x) auto

lemma split_join:
  "ls \<noteq> [] \<Longrightarrow> \<forall>l \<in> set ls. sep \<notin> set l \<Longrightarrow> split sep (join [sep] ls) = ls"
  by (induction "[sep]" ls rule: join.induct) (auto simp: split_no_sep split_append_sep)

text \<open>White space put before and after a line does not change what \<open>trim\<close> makes of it.\<close>

lemma trim_padding:
  assumes "\<forall>c \<in> set pre. isSpace c" and "\<forall>c \<in> set post. isSpace c"
  shows "trim (pre @ l @ post) = trim l"
proof -
  have lead: "dropWhile isSpace (pre @ l @ post) = dropWhile isSpace (l @ post)"
    by (rule dropWhile_append2) (use assms(1) in auto)
  have trail: "dropWhile isSpace (rev post @ ys) = dropWhile isSpace ys" for ys
    by (rule dropWhile_append2) (use assms(2) in auto)
  show ?thesis
  proof (cases "\<forall>c \<in> set l. isSpace c")
    case True
    then have blank: "dropWhile isSpace (l @ post) = []" "dropWhile isSpace l = []"
      using assms(2) by auto
    show ?thesis unfolding trim_def lead blank by simp
  next
    case False
    then obtain x where "x \<in> set l" "\<not> isSpace x" by blast
    then have keep: "dropWhile isSpace (l @ post) = dropWhile isSpace l @ post"
      by (rule dropWhile_append1)
    show ?thesis unfolding trim_def lead keep rev_append trail by simp
  qed
qed

text \<open>
  C10. The result of \<open>markdownToJson\<close>, value and diagnostics, depends on the trimmed lines
  only: two texts of as many lines (no line holding a line feed), whose lines agree after
  trimming, decode to the same result under every options record and every room on the
  stack. By \<open>trim_padding\<close> this covers white space added or removed at the start or the end
  of any line, so indentation tells the decoder nothing.
\<close>

theorem markdownToJson_ignores_indentation:
  assumes "list_all2 (\<lambda>l l'. trim l = trim l') ls ls'"
    and "ls \<noteq> []"
    and "\<forall>l \<in> set ls \<union> set ls'. CHR 0x0A \<notin> set l"
  shows "markdownToJson stack (join [CHR 0x0A] ls) opts
         = markdownToJson stack (join [CHR 0x0A] ls') opts"
proof -
  have ne: "ls' \<noteq> []" using assms(1,2) by auto
  have "map trim ls = map trim ls'"
    using assms(1) by (induction rule: list_all2_induct) auto
  moreover have "split (CHR 0x0A) (join [CHR 0x0A] ls) = ls"
    using assms(2,3) by (intro split_join) auto
  moreover have "split (CHR 0x0A) (join [CHR 0x0A] ls') = ls'"
    using ne assms(3) by (intro split_join) auto
  ultimately show ?thesis by (simp add: markdownToJson_def)
qed

theorem markdownToJson_ignores_indentation_witness:
  "markdownToJson 5 (join [CHR 0x0A] [''- **a**: 1'', ''    - **b**: 2  '']) no_options
   = markdownToJson 5 (join [CHR 0x0A] [''- **a**: 1'', ''- **b**: 2'']) no_options
   \<and> markdownToJson 5 (join [CHR 0x0A] [''- **a**: 1'', ''- **b**: 2'']) no_options
     = \<lparr>data = JObj [(''a'', JNum 1 0), (''b'', JNum 2 0)], errors = []\<rparr>"
proof -
  have "list_all2 (\<lambda>l l'. trim l = trim l')
          [''- **a**: 1'', ''    - **b**: 2  ''] [''- **a**: 1'', ''- **b**: 2'']"
    by (simp add: trim_def isSpace_def)
  from markdownToJson_ignores_indentation[OF this, of 5 no_options]
  have "markdownToJson 5 (join [CHR 0x0A] [''- **a**: 1'', ''    - **b**: 2  '']) no_options
   = markdownToJson 5 (join [CHR 0x0A] [''- **a**: 1'', ''- **b**: 2'']) no_options"
    by simp
  moreover have "markdownToJson 5 (join [CHR 0x0A] [''- **a**: 1'', ''- **b**: 2'']) no_options
     = \<lparr>data = JObj [(''a'', JNum 1 0), (''b'', JNum 2 0)], errors = []\<rparr>"
    by code_simp
  ultimately show ?thesis by simp
qed

end
